theory Spec2Isabelle
  imports Main "HOL-Library.Multiset"
begin

section \<open>char2fonts: which fonts contain a character\<close>

text \<open>
  A shallow embedding of \<^verbatim>\<open>src/char2fonts.py\<close>. The program is written against
  the fontTools library and the Python standard library; what the program observes of
  them is data of the model:
  \<^item> a Python \<^verbatim>\<open>str\<close> is the list of its code points;
  \<^item> a \<^verbatim>\<open>TTFont\<close> object is what the program reads of it: whether it has a
    \<^verbatim>\<open>cmap\<close> and a \<^verbatim>\<open>name\<close> table, what reading the \<^verbatim>\<open>cmap\<close> table gives
    (the library decodes a table when it is first read, so this is an error or the list of
    subtables), what reading the dictionary of a subtable gives (the library decodes the
    body of a subtable when it is first read, too), and the records of the
    \<^verbatim>\<open>name\<close> table;
  \<^item> the constructor \<^verbatim>\<open>TTFont(path)\<close>, the directory walk
    \<^verbatim>\<open>Path(dir).rglob("*.ttf")\<close>, \<^verbatim>\<open>unicodedata.name\<close> and the encoder of the
    standard output are parameters;
  \<^item> an exception is a value of \<open>py_exception\<close>, and a function that may raise returns
    \<open>py_exception + 'a\<close>.
\<close>

subsection \<open>Strings and exceptions\<close>

type_synonym pystr = "nat list"

definition str :: "string \<Rightarrow> pystr" where
  "str s = map of_char s"

text \<open>
  Every class below derives from \<^verbatim>\<open>Exception\<close>, so \<^verbatim>\<open>except Exception\<close>
  catches each of them. \<^verbatim>\<open>UnicodeDecodeError\<close> and \<^verbatim>\<open>UnicodeEncodeError\<close>
  derive from \<^verbatim>\<open>ValueError\<close>; \<open>StructError\<close> is \<^verbatim>\<open>struct.error\<close>.
\<close>

datatype py_exception =
  TypeError | ValueError | UnicodeDecodeError | UnicodeEncodeError | AttributeError
  | AssertionError | TTLibError | StructError | OSError | EOFError

definition is_ValueError :: "py_exception \<Rightarrow> bool" where
  "is_ValueError e = (e = ValueError \<or> e = UnicodeDecodeError \<or> e = UnicodeEncodeError)"

text \<open>\<^verbatim>\<open>ord(s)\<close>: the code point of a string of length one, \<^verbatim>\<open>TypeError\<close> otherwise.\<close>

fun ord :: "pystr \<Rightarrow> py_exception + int" where
  "ord [c] = Inr (int c)"
| "ord s = Inl TypeError"

subsection \<open>Fonts\<close>

text \<open>
  A subtable of the \<^verbatim>\<open>cmap\<close> table: its platform identifier and its encoding
  identifier, which the library reads from the header of the subtable when it decodes the
  \<^verbatim>\<open>cmap\<close> table, and what reading \<^verbatim>\<open>cmap.cmap\<close> gives. The library decodes
  the body of a subtable at this first read of the attribute: \<open>cmap t = Inl e\<close> when
  that raises \<open>e\<close> (a malformed body), and \<open>cmap t = Inr d\<close> with
  the dictionary \<open>d\<close> from code point to glyph identifier otherwise. The program never
  reads a value of the dictionary.
\<close>

record cmap_subtable =
  cmap_platformID :: int
  cmap_platEncID :: int
  cmap :: "py_exception + (int \<rightharpoonup> int)"

text \<open>
  Modelled from the spec: the method \<^verbatim>\<open>isUnicode()\<close> of the library's subtable class,
  which is not under \<^verbatim>\<open>src/\<close>. The specification describes it as platform identifier
  indicating Unicode (0), or Windows platform (3) with a Unicode encoding identifier. The
  library counts three encoding identifiers of the Windows platform as such: 1 (Unicode
  BMP), 10 (Unicode full repertoire) and also 0 (Symbol).
\<close>

definition isUnicode :: "cmap_subtable \<Rightarrow> bool" where
  "isUnicode t =
     (cmap_platformID t = 0 \<or>
      (cmap_platformID t = 3 \<and> (cmap_platEncID t = 0 \<or> cmap_platEncID t = 1 \<or> cmap_platEncID t = 10)))"

text \<open>
  A record of the \<^verbatim>\<open>name\<close> table; \<open>toUnicode\<close> is the outcome of the library's
  method \<^verbatim>\<open>record.toUnicode()\<close>, which decodes the record's bytes and may raise.
\<close>

record name_record =
  nameID :: int
  platformID :: int
  platEncID :: int
  toUnicode :: "py_exception + pystr"

text \<open>
  \<open>font_cmap f = None\<close> is \<^verbatim>\<open>"cmap" not in font\<close>. Otherwise the table directory of
  the file lists a \<^verbatim>\<open>cmap\<close> table, and \<^verbatim>\<open>font["cmap"]\<close> decodes it at this first
  read: \<open>font_cmap f = Some (Inl e)\<close> when decoding raises \<open>e\<close> (a table that is cut short
  or malformed, in a file whose directory the constructor accepted), and
  \<open>font_cmap f = Some (Inr ts)\<close> when it gives \<^verbatim>\<open>font["cmap"].tables\<close>.

  \<open>font_name\<close> is \<^verbatim>\<open>font["name"].names\<close>. The program reads it only inside
  \<^verbatim>\<open>try ... except Exception\<close>, where a \<^verbatim>\<open>name\<close> table that fails to decode ends as
  the absent one does, so \<open>None\<close> stands for both.
\<close>

record ttfont =
  font_cmap :: "(py_exception + cmap_subtable list) option"
  font_name :: "name_record list option"

subsection \<open>\<^verbatim>\<open>char_in_font\<close>\<close>

text \<open>
  The loop over \<^verbatim>\<open>font["cmap"].tables\<close>. In the membership test
  \<^verbatim>\<open>ord(unicode_char) in cmap.cmap\<close> the left operand is evaluated first, once for each
  table that answers \<^verbatim>\<open>isUnicode()\<close>, so \<^verbatim>\<open>ord\<close> raises at the first such table
  and not before; then \<^verbatim>\<open>cmap.cmap\<close> is read. \<^verbatim>\<open>font["cmap"]\<close> is evaluated
  before the loop. Nothing here is inside a \<^verbatim>\<open>try\<close>: an error of decoding the table or
  a subtable leaves the function.
\<close>

fun char_in_tables :: "pystr \<Rightarrow> cmap_subtable list \<Rightarrow> py_exception + bool" where
  "char_in_tables unicode_char [] = Inr False"
| "char_in_tables unicode_char (t # ts) =
     (if isUnicode t then
        (case ord unicode_char of
           Inl e \<Rightarrow> Inl e
         | Inr n \<Rightarrow>
             (case cmap t of
                Inl e \<Rightarrow> Inl e
              | Inr d \<Rightarrow> if d n \<noteq> None then Inr True else char_in_tables unicode_char ts))
      else char_in_tables unicode_char ts)"

definition char_in_font :: "pystr \<Rightarrow> ttfont \<Rightarrow> py_exception + bool" where
  "char_in_font unicode_char font =
     (case font_cmap font of
        None \<Rightarrow> Inr False
      | Some (Inl e) \<Rightarrow> Inl e
      | Some (Inr ts) \<Rightarrow> char_in_tables unicode_char ts)"

subsection \<open>\<^verbatim>\<open>get_font_name\<close>\<close>

definition name_matches :: "name_record \<Rightarrow> bool" where
  "name_matches r = ((nameID r = 1 \<or> nameID r = 4) \<and> platformID r = 3 \<and> platEncID r = 1)"

text \<open>The loop over \<^verbatim>\<open>font["name"].names\<close>: \<open>None\<close> when it runs to its end.\<close>

fun scan_names :: "name_record list \<Rightarrow> (py_exception + pystr) option" where
  "scan_names [] = None"
| "scan_names (r # rs) = (if name_matches r then Some (toUnicode r) else scan_names rs)"

definition Unknown_font :: pystr where
  "Unknown_font = str ''Unknown font''"

text \<open>The body of the \<^verbatim>\<open>try\<close>.\<close>

definition get_font_name_try :: "ttfont \<Rightarrow> py_exception + pystr" where
  "get_font_name_try font =
     (case font_name font of
        None \<Rightarrow> Inr Unknown_font
      | Some rs \<Rightarrow>
          (case scan_names rs of
             Some res \<Rightarrow> res
           | None \<Rightarrow> Inr Unknown_font))"

definition get_font_name :: "ttfont \<Rightarrow> pystr" where
  "get_font_name font =
     (case get_font_name_try font of
        Inr s \<Rightarrow> s
      | Inl e \<Rightarrow> Unknown_font)"

subsection \<open>Formatting\<close>

text \<open>The format specification \<^verbatim>\<open>04X\<close>: upper-case hexadecimal, zero-padded to width 4.\<close>

definition hex_digit :: "nat \<Rightarrow> nat" where
  "hex_digit d = (if d < 10 then 48 + d else 55 + d)"

fun to_hex :: "nat \<Rightarrow> pystr" where
  "to_hex n = (if n < 16 then [hex_digit n] else to_hex (n div 16) @ [hex_digit (n mod 16)])"

definition format_04X :: "int \<Rightarrow> pystr" where
  "format_04X n =
     (if n < 0 then 45 # replicate (3 - length (to_hex (nat (- n)))) 48 @ to_hex (nat (- n))
      else replicate (4 - length (to_hex (nat n))) 48 @ to_hex (nat n))"

text \<open>A length inside an f-string: decimal digits.\<close>

fun to_dec :: "nat \<Rightarrow> pystr" where
  "to_dec n = (if n < 10 then [48 + n] else to_dec (n div 10) @ [48 + n mod 10])"

subsection \<open>The process: output, cache, file reads\<close>

text \<open>
  \<open>stdout\<close> holds the argument of each \<^verbatim>\<open>print\<close> call that succeeded, \<open>lru\<close> the entries of the
  cache that \<^verbatim>\<open>@lru_cache(maxsize=512)\<close> puts around \<^verbatim>\<open>load_font\<close>, most
  recently used first, \<open>opened\<close> the paths that were given to \<^verbatim>\<open>TTFont(...)\<close>, and
  \<open>walked\<close> the directories that \<^verbatim>\<open>discover_fonts\<close> searched.
\<close>

record world =
  stdout :: "pystr list"
  lru :: "(pystr \<times> ttfont option) list"
  opened :: "pystr list"
  walked :: "pystr list"

text \<open>
  \<^verbatim>\<open>print(s)\<close> encodes \<open>s\<close> for the standard output and raises
  \<^verbatim>\<open>UnicodeEncodeError\<close> when a character cannot be encoded, for instance a lone
  surrogate of a command-line argument under UTF-8. The encoding of the output belongs to
  the environment: it is taken to encode ASCII, and \<open>enc\<close> says which other code
  points it encodes.
\<close>

definition encodable :: "(nat \<Rightarrow> bool) \<Rightarrow> pystr \<Rightarrow> bool" where
  "encodable enc s = list_all (\<lambda>c. c < 128 \<or> enc c) s"

definition print :: "(nat \<Rightarrow> bool) \<Rightarrow> pystr \<Rightarrow> world \<Rightarrow> py_exception + world" where
  "print enc s w =
     (if encodable enc s then Inr (w\<lparr>stdout := stdout w @ [s]\<rparr>) else Inl UnicodeEncodeError)"

definition discover_fonts :: "(pystr \<Rightarrow> pystr list) \<Rightarrow> pystr \<Rightarrow> world \<Rightarrow> pystr list \<times> world" where
  "discover_fonts rglob font_dir w = (rglob font_dir, w\<lparr>walked := walked w @ [font_dir]\<rparr>)"

subsection \<open>\<^verbatim>\<open>load_font\<close>\<close>

definition maxsize :: nat where
  "maxsize = 512"

text \<open>The function under the decorator: \<^verbatim>\<open>except Exception\<close> turns every error into \<^verbatim>\<open>None\<close>.\<close>

definition load_font_wrapped :: "(pystr \<Rightarrow> py_exception + ttfont) \<Rightarrow> pystr \<Rightarrow> ttfont option" where
  "load_font_wrapped TTFont fontpath =
     (case TTFont fontpath of
        Inr font \<Rightarrow> Some font
      | Inl e \<Rightarrow> None)"

text \<open>
  The decorated function. A hit returns the stored result and makes the entry the most
  recent one. A miss calls the function, and when the cache is full the least recently
  used entry makes room for the new one.
\<close>

definition load_font :: "(pystr \<Rightarrow> py_exception + ttfont) \<Rightarrow> pystr \<Rightarrow> world \<Rightarrow> ttfont option \<times> world" where
  "load_font TTFont fontpath w =
     (case map_of (lru w) fontpath of
        Some result \<Rightarrow>
          (result, w\<lparr>lru := (fontpath, result) # filter (\<lambda>kv. fst kv \<noteq> fontpath) (lru w)\<rparr>)
      | None \<Rightarrow>
          (let result = load_font_wrapped TTFont fontpath;
               kept = (if length (lru w) < maxsize then lru w else butlast (lru w))
           in (result, w\<lparr>lru := (fontpath, result) # kept, opened := opened w @ [fontpath]\<rparr>)))"

text \<open>Loading a sequence of paths, one after the other.\<close>

fun load_fonts :: "(pystr \<Rightarrow> py_exception + ttfont) \<Rightarrow> pystr list \<Rightarrow> world \<Rightarrow> world" where
  "load_fonts TTFont [] w = w"
| "load_fonts TTFont (p # ps) w = load_fonts TTFont ps (snd (load_font TTFont p w))"

text \<open>Every entry of the cache is what the wrapped function returns for its path.\<close>

definition cache_ok :: "(pystr \<Rightarrow> py_exception + ttfont) \<Rightarrow> world \<Rightarrow> bool" where
  "cache_ok TTFont w = list_all (\<lambda>kv. snd kv = load_font_wrapped TTFont (fst kv)) (lru w)"

subsection \<open>\<^verbatim>\<open>get_char_description\<close>\<close>

text \<open>
  \<^verbatim>\<open>unicodedata.name(chr)\<close> over a table \<open>names\<close> of the named code points:
  \<^verbatim>\<open>TypeError\<close> unless the argument is one character, \<^verbatim>\<open>ValueError\<close> for a
  character that has no name.
\<close>

definition unicodedata_name :: "(nat \<rightharpoonup> pystr) \<Rightarrow> pystr \<Rightarrow> py_exception + pystr" where
  "unicodedata_name names chr =
     (case chr of
        [c] \<Rightarrow> (case names c of Some n \<Rightarrow> Inr n | None \<Rightarrow> Inl ValueError)
      | _ \<Rightarrow> Inl TypeError)"

definition get_char_description :: "(nat \<rightharpoonup> pystr) \<Rightarrow> pystr \<Rightarrow> py_exception + pystr" where
  "get_char_description names char =
     (case unicodedata_name names char of
        Inr name \<Rightarrow>
          (case ord char of
             Inl e \<Rightarrow> Inl e
           | Inr n \<Rightarrow> Inr (char @ str '' (U+'' @ format_04X n @ str '' '' @ name @ str '')''))
      | Inl e \<Rightarrow>
          if is_ValueError e then
            (case ord char of
               Inl e' \<Rightarrow> Inl e'
             | Inr n \<Rightarrow> Inr (char @ str '' (U+'' @ format_04X n @ str '')''))
          else Inl e)"

subsection \<open>\<^verbatim>\<open>find_fonts_for_char\<close> and \<^verbatim>\<open>main\<close>\<close>

text \<open>
  The loop over \<^verbatim>\<open>font_paths\<close>, carrying \<^verbatim>\<open>found\<close>. A font object is true in a
  condition, \<^verbatim>\<open>None\<close> is false. The arrow of the output line is U+2192.
\<close>

fun scan_fonts ::
  "(nat \<Rightarrow> bool) \<Rightarrow> (pystr \<Rightarrow> py_exception + ttfont) \<Rightarrow> pystr \<Rightarrow> pystr list \<Rightarrow> bool \<Rightarrow> world \<Rightarrow> (py_exception + bool) \<times> world"
where
  "scan_fonts enc TTFont char [] found w = (Inr found, w)"
| "scan_fonts enc TTFont char (fontpath # rest) found w =
     (case load_font TTFont fontpath w of
        (None, w') \<Rightarrow> scan_fonts enc TTFont char rest found w'
      | (Some font, w') \<Rightarrow>
          (case char_in_font char font of
             Inl e \<Rightarrow> (Inl e, w')
           | Inr False \<Rightarrow> scan_fonts enc TTFont char rest found w'
           | Inr True \<Rightarrow>
               (case print enc (str ''  '' @ get_font_name font @ [32, 8594, 32] @ fontpath) w' of
                  Inl e \<Rightarrow> (Inl e, w')
                | Inr w'' \<Rightarrow> scan_fonts enc TTFont char rest True w'')))"

definition find_fonts_for_char ::
  "(nat \<Rightarrow> bool) \<Rightarrow> (pystr \<Rightarrow> py_exception + ttfont) \<Rightarrow> (nat \<rightharpoonup> pystr) \<Rightarrow> pystr \<Rightarrow> pystr list \<Rightarrow> world \<Rightarrow> (py_exception + unit) \<times> world"
where
  "find_fonts_for_char enc TTFont names char font_paths w =
     (case get_char_description names char of
        Inl e \<Rightarrow> (Inl e, w)
      | Inr d \<Rightarrow>
          (case print enc (10 # str ''Searching for: '' @ d) w of
             Inl e \<Rightarrow> (Inl e, w)
           | Inr w1 \<Rightarrow>
               (case print enc (replicate 70 45) w1 of
                  Inl e \<Rightarrow> (Inl e, w1)
                | Inr w2 \<Rightarrow>
                    (case scan_fonts enc TTFont char font_paths False w2 of
                       (Inl e, w3) \<Rightarrow> (Inl e, w3)
                     | (Inr found, w3) \<Rightarrow>
                         if \<not> found then
                           (case print enc (str ''  No fonts found containing this character.'') w3 of
                              Inl e \<Rightarrow> (Inl e, w3)
                            | Inr w4 \<Rightarrow> (Inr (), w4))
                         else (Inr (), w3)))))"

text \<open>The loop of \<^verbatim>\<open>main\<close> over \<^verbatim>\<open>sys.argv[1:]\<close>.\<close>

fun query_all ::
  "(nat \<Rightarrow> bool) \<Rightarrow> (pystr \<Rightarrow> py_exception + ttfont) \<Rightarrow> (nat \<rightharpoonup> pystr) \<Rightarrow> pystr list \<Rightarrow> pystr list \<Rightarrow> world \<Rightarrow> (py_exception + unit) \<times> world"
where
  "query_all enc TTFont names [] font_paths w = (Inr (), w)"
| "query_all enc TTFont names (char # chars) font_paths w =
     (case find_fonts_for_char enc TTFont names char font_paths w of
        (Inl e, w') \<Rightarrow> (Inl e, w')
      | (Inr u, w') \<Rightarrow> query_all enc TTFont names chars font_paths w')"

text \<open>
  How a run ends: \<^verbatim>\<open>main\<close> returns, \<^verbatim>\<open>sys.exit(n)\<close> is called, or an exception
  leaves \<^verbatim>\<open>main\<close>, which the interpreter reports with a traceback and status 1.
\<close>

datatype ending = Returned | Exited int | Uncaught py_exception

fun exit_status :: "ending \<Rightarrow> int" where
  "exit_status Returned = 0"
| "exit_status (Exited n) = n"
| "exit_status (Uncaught e) = 1"

definition usage_lines :: "pystr list" where
  "usage_lines =
     [str ''Usage: python char2font.py <character> [<character> ...]'',
      str ''Find which fonts contain specific Unicode characters.'']"

definition main ::
  "(nat \<Rightarrow> bool) \<Rightarrow> (pystr \<Rightarrow> pystr list) \<Rightarrow> (pystr \<Rightarrow> py_exception + ttfont) \<Rightarrow> (nat \<rightharpoonup> pystr) \<Rightarrow> pystr list \<Rightarrow> world \<Rightarrow> ending \<times> world"
where
  "main enc rglob TTFont names argv w =
     (if drop 1 argv = [] then
        (case print enc (usage_lines ! 0) w of
           Inl e \<Rightarrow> (Uncaught e, w)
         | Inr w1 \<Rightarrow>
             (case print enc (usage_lines ! 1) w1 of
                Inl e \<Rightarrow> (Uncaught e, w1)
              | Inr w2 \<Rightarrow> (Exited 1, w2)))
      else
        (case print enc (str ''Discovering fonts...'') w of
           Inl e \<Rightarrow> (Uncaught e, w)
         | Inr w1 \<Rightarrow>
             (case discover_fonts rglob (str ''/usr/share/fonts/'') w1 of
                (font_paths, w2) \<Rightarrow>
                  (case print enc (str ''Found '' @ to_dec (length font_paths) @ str '' fonts.'' @ [10]) w2 of
                     Inl e \<Rightarrow> (Uncaught e, w2)
                   | Inr w3 \<Rightarrow>
                       (case query_all enc TTFont names (drop 1 argv) font_paths w3 of
                          (Inl e, w4) \<Rightarrow> (Uncaught e, w4)
                        | (Inr u, w4) \<Rightarrow> (Returned, w4))))))"

definition initial :: world where
  "initial = \<lparr>stdout = [], lru = [], opened = [], walked = []\<rparr>"

declare to_hex.simps [simp del] to_dec.simps [simp del]

subsection \<open>Notions used to state the properties\<close>

text \<open>Reading the dictionary of the subtable raises nothing.\<close>

definition reads_ok :: "cmap_subtable \<Rightarrow> bool" where
  "reads_ok t = (case cmap t of Inl e \<Rightarrow> False | Inr d \<Rightarrow> True)"

text \<open>
  Reading the \<^verbatim>\<open>cmap\<close> table of the font raises nothing, and neither does reading the
  dictionary of a subtable that answers \<^verbatim>\<open>isUnicode()\<close>.
\<close>

definition cmap_decodes :: "ttfont \<Rightarrow> bool" where
  "cmap_decodes font =
     (case font_cmap font of
        None \<Rightarrow> True
      | Some (Inl e) \<Rightarrow> False
      | Some (Inr ts) \<Rightarrow> list_all reads_ok (filter isUnicode ts))"

text \<open>The subtable has the code point as a key; it maps it to a glyph other than glyph 0.\<close>

definition in_dict :: "cmap_subtable \<Rightarrow> int \<Rightarrow> bool" where
  "in_dict t c = (case cmap t of Inl e \<Rightarrow> False | Inr d \<Rightarrow> d c \<noteq> None)"

definition has_glyph :: "cmap_subtable \<Rightarrow> int \<Rightarrow> bool" where
  "has_glyph t c =
     (case cmap t of
        Inl e \<Rightarrow> False
      | Inr d \<Rightarrow> (case d c of None \<Rightarrow> False | Some g \<Rightarrow> g \<noteq> 0))"

text \<open>Some table that answers \<^verbatim>\<open>isUnicode()\<close> has the code point as a key.\<close>

definition has_key :: "ttfont \<Rightarrow> int \<Rightarrow> bool" where
  "has_key font c =
     (case font_cmap font of
        None \<Rightarrow> False
      | Some (Inl e) \<Rightarrow> False
      | Some (Inr ts) \<Rightarrow> list_ex (\<lambda>t. isUnicode t \<and> in_dict t c) ts)"

text \<open>Some table that answers \<^verbatim>\<open>isUnicode()\<close> maps the code point to a glyph other than glyph 0.\<close>

definition maps_to_glyph :: "ttfont \<Rightarrow> int \<Rightarrow> bool" where
  "maps_to_glyph font c =
     (case font_cmap font of
        None \<Rightarrow> False
      | Some (Inl e) \<Rightarrow> False
      | Some (Inr ts) \<Rightarrow> list_ex (\<lambda>t. isUnicode t \<and> has_glyph t c) ts)"

text \<open>
  No dictionary of the font has an entry for glyph 0, the missing glyph: the dictionaries
  that the library decodes from a font file hold the code points that have a glyph.
\<close>

definition no_zero :: "cmap_subtable \<Rightarrow> bool" where
  "no_zero t = (case cmap t of Inl e \<Rightarrow> True | Inr d \<Rightarrow> 0 \<notin> ran d)"

definition no_glyph_zero :: "ttfont \<Rightarrow> bool" where
  "no_glyph_zero font =
     (case font_cmap font of
        None \<Rightarrow> True
      | Some (Inl e) \<Rightarrow> True
      | Some (Inr ts) \<Rightarrow> list_all no_zero ts)"

text \<open>
  A Unicode-compatible addressing scheme in the specification's words: platform identifier
  indicating Unicode, or Windows platform with a Unicode encoding identifier (1 or 10);
  tables of symbol or legacy encodings are ignored. Coverage in the specification's words:
  some table with such a scheme maps the code point to a glyph identifier that is not zero.
\<close>

definition spec_unicode :: "cmap_subtable \<Rightarrow> bool" where
  "spec_unicode t =
     (cmap_platformID t = 0 \<or>
      (cmap_platformID t = 3 \<and> (cmap_platEncID t = 1 \<or> cmap_platEncID t = 10)))"

definition spec_supports :: "ttfont \<Rightarrow> int \<Rightarrow> bool" where
  "spec_supports font c =
     (case font_cmap font of
        None \<Rightarrow> False
      | Some (Inl e) \<Rightarrow> False
      | Some (Inr ts) \<Rightarrow>
          list_ex (\<lambda>t. spec_unicode t \<and> has_glyph t c) ts)"

text \<open>A Unicode scalar value: at most U+10FFFF and not a surrogate.\<close>

definition valid_scalar :: "nat \<Rightarrow> bool" where
  "valid_scalar c = (c \<le> 1114111 \<and> \<not> (55296 \<le> c \<and> c \<le> 57343))"

text \<open>An output in UTF-8 with strict error handling encodes the scalar values.\<close>

definition utf8 :: "nat \<Rightarrow> bool" where
  "utf8 c = valid_scalar c"

text \<open>The cache has one entry for a path and at most \<open>maxsize\<close> entries.\<close>

definition lru_inv :: "world \<Rightarrow> bool" where
  "lru_inv w = (distinct (map fst (lru w)) \<and> length (lru w) \<le> maxsize)"

text \<open>The paths whose entries are more recent than the entry of \<open>p\<close>.\<close>

definition ahead :: "pystr \<Rightarrow> world \<Rightarrow> pystr set" where
  "ahead p w = set (takeWhile (\<lambda>k. k \<noteq> p) (map fst (lru w)))"

subsection \<open>Concrete fonts, files and runs\<close>

text \<open>
  A Windows Unicode BMP table that maps U+0041 to glyph 5, a Macintosh Roman table, a
  Windows Symbol table that maps U+F041 to glyph 36, and a table of the Unicode platform
  whose body is malformed.
\<close>

definition table_A :: cmap_subtable where
  "table_A = \<lparr>cmap_platformID = 3, cmap_platEncID = 1, cmap = Inr [65 \<mapsto> 5]\<rparr>"


definition table_symbol :: cmap_subtable where
  "table_symbol = \<lparr>cmap_platformID = 3, cmap_platEncID = 0, cmap = Inr [61505 \<mapsto> 36]\<rparr>"


definition font_A :: ttfont where
  "font_A = \<lparr>font_cmap = Some (Inr [table_A]), font_name = None\<rparr>"

text \<open>A symbol font: its only subtable is the Windows Symbol table.\<close>

definition font_symbol :: ttfont where
  "font_symbol = \<lparr>font_cmap = Some (Inr [table_symbol]), font_name = None\<rparr>"

text \<open>A font whose Unicode table has the key U+0000.\<close>

definition font_nul :: ttfont where
  "font_nul =
     \<lparr>font_cmap = Some (Inr [\<lparr>cmap_platformID = 3, cmap_platEncID = 1, cmap = Inr [0 \<mapsto> 1]\<rparr>]),
      font_name = None\<rparr>"

text \<open>A font with a \<^verbatim>\<open>cmap\<close> table that has no subtable.\<close>

definition font_no_tables :: ttfont where
  "font_no_tables = \<lparr>font_cmap = Some (Inr []), font_name = None\<rparr>"

text \<open>A font whose \<^verbatim>\<open>cmap\<close> table is cut short: the file loads, reading the table raises.\<close>

definition font_cut_cmap :: ttfont where
  "font_cut_cmap = \<lparr>font_cmap = Some (Inl StructError), font_name = None\<rparr>"

text \<open>
  Name records: a Macintosh family name, a Windows full name whose bytes do not decode,
  and a Windows family name.
\<close>

definition record_mac :: name_record where
  "record_mac = \<lparr>nameID = 1, platformID = 1, platEncID = 0, toUnicode = Inr (str ''Deja'')\<rparr>"

definition record_broken :: name_record where
  "record_broken = \<lparr>nameID = 4, platformID = 3, platEncID = 1, toUnicode = Inl UnicodeDecodeError\<rparr>"

definition record_family :: name_record where
  "record_family = \<lparr>nameID = 1, platformID = 3, platEncID = 1, toUnicode = Inr (str ''DejaVu Sans'')\<rparr>"

definition font_named :: ttfont where
  "font_named = \<lparr>font_cmap = None, font_name = Some [record_mac, record_family, record_broken]\<rparr>"

definition font_broken_name :: ttfont where
  "font_broken_name = \<lparr>font_cmap = None, font_name = Some [record_mac, record_broken, record_family]\<rparr>"

text \<open>A file system on which no file parses, and one without any font file.\<close>

definition corrupt :: "pystr \<Rightarrow> py_exception + ttfont" where
  "corrupt fontpath = Inl TTLibError"

definition no_fonts :: "pystr \<Rightarrow> pystr list" where
  "no_fonts font_dir = []"

definition bad_path :: pystr where
  "bad_path = str ''bad.ttf''"

text \<open>As many further paths as the cache has room for, and the run that loads them after \<open>bad_path\<close>.\<close>

definition other_paths :: "pystr list" where
  "other_paths = map (\<lambda>n. str ''font'' @ [1024 + n] @ str ''.ttf'') [0 ..< maxsize]"

definition flooded :: world where
  "flooded = load_fonts corrupt other_paths (snd (load_font corrupt bad_path initial))"

definition few_paths :: "pystr list" where
  "few_paths = [str ''a.ttf'', str ''b.ttf'', str ''a.ttf'']"

text \<open>A file system with one font file, which parses to \<open>font_A\<close>, and the cache after loading it.\<close>

definition a_path :: pystr where
  "a_path = str ''/usr/share/fonts/a.ttf''"

definition one_font :: "pystr \<Rightarrow> pystr list" where
  "one_font font_dir = [a_path]"

definition good :: "pystr \<Rightarrow> py_exception + ttfont" where
  "good fontpath = Inr font_A"

definition warm :: world where
  "warm = snd (load_font good a_path initial)"

text \<open>The same file system when the file parses to \<open>font_cut_cmap\<close>.\<close>

definition cut :: "pystr \<Rightarrow> py_exception + ttfont" where
  "cut fontpath = Inr font_cut_cmap"

text \<open>
  Command lines: no argument, the argument \<^verbatim>\<open>A\<close>, the argument \<^verbatim>\<open>ab\<close>, and an
  argument that is the lone surrogate U+DCFF (a byte of the command line that is not UTF-8).
\<close>

definition argv_none :: "pystr list" where
  "argv_none = [str ''char2fonts.py'']"

definition argv_A :: "pystr list" where
  "argv_A = [str ''char2fonts.py'', str ''A'']"

definition argv_ab :: "pystr list" where
  "argv_ab = [str ''char2fonts.py'', str ''ab'']"

definition argv_surrogate :: "pystr list" where
  "argv_surrogate = [str ''char2fonts.py'', [56575]]"

section \<open>Coverage: \<^verbatim>\<open>char_in_font\<close>\<close>

lemma ord_not_single: "length u \<noteq> 1 \<Longrightarrow> ord u = Inl TypeError"
  by (cases u rule: ord.cases) auto

lemma char_in_tables_single:
  "list_all reads_ok (filter isUnicode ts) \<Longrightarrow>
   char_in_tables [c] ts = Inr (list_ex (\<lambda>t. isUnicode t \<and> in_dict t (int c)) ts)"
proof (induction ts)
  case Nil
  show ?case by simp
next
  case (Cons t ts)
  show ?case
  proof (cases "isUnicode t")
    case False
    with Cons show ?thesis by simp
  next
    case True
    with Cons.prems obtain d where d: "cmap t = Inr d"
      by (cases "cmap t") (auto simp: reads_ok_def)
    from True Cons.prems have "list_all reads_ok (filter isUnicode ts)" by simp
    then have rest: "char_in_tables [c] ts = Inr (list_ex (\<lambda>t. isUnicode t \<and> in_dict t (int c)) ts)"
      by (rule Cons.IH)
    have "in_dict t (int c) = (d (int c) \<noteq> None)" using d by (simp add: in_dict_def)
    with True d rest show ?thesis by simp
  qed
qed


lemma char_in_tables_not_single:
  "length u \<noteq> 1 \<Longrightarrow>
   char_in_tables u ts = (if list_ex isUnicode ts then Inl TypeError else Inr False)"
  by (induction ts) (auto simp: ord_not_single)

lemma char_in_font_single:
  "cmap_decodes font \<Longrightarrow> char_in_font [c] font = Inr (has_key font (int c))"
  by (simp add: char_in_font_def has_key_def cmap_decodes_def char_in_tables_single
      split: option.splits sum.splits)

text \<open>An error of decoding the \<^verbatim>\<open>cmap\<close> table leaves \<^verbatim>\<open>char_in_font\<close>, whatever the argument.\<close>

lemma char_in_font_decode_error:
  "font_cmap font = Some (Inl e) \<Longrightarrow> char_in_font u font = Inl e"
  by (simp add: char_in_font_def)

lemma key_iff_glyph:
  assumes "no_zero t"
  shows "in_dict t c = has_glyph t c"
proof (cases "cmap t")
  case (Inl e)
  then show ?thesis by (simp add: in_dict_def has_glyph_def)
next
  case (Inr d)
  show ?thesis
  proof (cases "d c")
    case None
    with Inr show ?thesis by (simp add: in_dict_def has_glyph_def)
  next
    case (Some g)
    then have "g \<in> ran d" by (auto simp: ran_def)
    with assms Inr have "g \<noteq> 0" by (auto simp: no_zero_def)
    with Inr Some show ?thesis by (simp add: in_dict_def has_glyph_def)
  qed
qed

lemma has_key_maps_to_glyph:
  assumes "no_glyph_zero font"
  shows "has_key font c = maps_to_glyph font c"
proof (cases "font_cmap font")
  case None
  then show ?thesis by (simp add: has_key_def maps_to_glyph_def)
next
  case (Some r)
  show ?thesis
  proof (cases r)
    case (Inl e)
    with Some show ?thesis by (simp add: has_key_def maps_to_glyph_def)
  next
    case (Inr ts)
    with Some assms have "\<forall>t \<in> set ts. no_zero t"
      by (simp add: no_glyph_zero_def list_all_iff)
    then have "\<forall>t \<in> set ts. (isUnicode t \<and> in_dict t c) = (isUnicode t \<and> has_glyph t c)"
      using key_iff_glyph by blast
    with Some Inr show ?thesis
      by (simp add: has_key_def maps_to_glyph_def list_ex_iff)
  qed
qed



text \<open>
  C1, as the code has it. For every font whose \<^verbatim>\<open>cmap\<close> table and Unicode subtables
  decode and every code point, \<^verbatim>\<open>char_in_font\<close> returns true if and only if some subtable that answers
  \<^verbatim>\<open>isUnicode()\<close> has the code point as a key, which for the dictionaries of a decoded
  font (no entry for glyph 0) is: maps it to a glyph identifier that is not zero. The
  subtables that answer \<^verbatim>\<open>isUnicode()\<close> are those of platform 0 and those of the
  Windows platform with encoding 0 (Symbol), 1 or 10: a Symbol table is consulted too.
\<close>

theorem char_in_font_iff_key:
  "cmap_decodes font \<Longrightarrow>
   char_in_font [c] font = Inr (has_key font (int c)) \<and>
   (no_glyph_zero font \<longrightarrow> char_in_font [c] font = Inr (maps_to_glyph font (int c)))"
  by (simp add: char_in_font_single has_key_maps_to_glyph)

theorem char_in_font_iff_key_witness:
  "cmap_decodes font_A \<and> no_glyph_zero font_A \<and> maps_to_glyph font_A (int 65) \<and>
   char_in_font [65] font_A = Inr True"
proof -
  have 1: "cmap_decodes font_A"
    by (simp add: cmap_decodes_def font_A_def table_A_def reads_ok_def)
  have 2: "no_glyph_zero font_A"
    by (simp add: no_glyph_zero_def no_zero_def font_A_def table_A_def)
  have 3: "maps_to_glyph font_A (int 65)"
    by (simp add: maps_to_glyph_def has_glyph_def font_A_def table_A_def isUnicode_def)
  from char_in_font_iff_key [OF 1, of 65]
  have "no_glyph_zero font_A \<longrightarrow> char_in_font [65] font_A = Inr (maps_to_glyph font_A (int 65))"
    by (rule conjunct2)
  with 2 3 have "char_in_font [65] font_A = Inr True" by simp
  with 1 2 3 show ?thesis by simp
qed

text \<open>
  The symbol font: its \<^verbatim>\<open>cmap\<close> table decodes and has no entry for glyph 0, no table
  with a Unicode-compatible scheme in the specification's sense maps U+F041, and
  \<^verbatim>\<open>char_in_font\<close> returns true, from the Windows Symbol table.
\<close>

theorem char_in_font_symbol_counterexample:
  "cmap_decodes font_symbol \<and> no_glyph_zero font_symbol \<and>
   char_in_font [61505] font_symbol = Inr True \<and> \<not> spec_supports font_symbol 61505"
  by (simp add: cmap_decodes_def reads_ok_def no_glyph_zero_def no_zero_def char_in_font_def
      font_symbol_def table_symbol_def isUnicode_def spec_supports_def spec_unicode_def)

text \<open>
  C3, as the code has it. For a font whose \<^verbatim>\<open>cmap\<close> table and Unicode subtables
  decode, queried with the
  code point zero or with a code point outside the range of Unicode scalar values,
  \<^verbatim>\<open>char_in_font\<close> raises no error; it returns false unless a table that answers
  \<^verbatim>\<open>isUnicode()\<close> has that code point as a key, and true if one has. The code point is
  looked up as it is.
\<close>

theorem char_in_font_unvalidated:
  "cmap_decodes font \<Longrightarrow> c = 0 \<or> \<not> valid_scalar c \<Longrightarrow>
   char_in_font [c] font = Inr (has_key font (int c))"
  by (rule char_in_font_single)

theorem char_in_font_unvalidated_witness:
  "cmap_decodes font_A \<and> \<not> valid_scalar 55296 \<and> char_in_font [55296] font_A = Inr False"
proof -
  have d: "cmap_decodes font_A"
    by (simp add: cmap_decodes_def font_A_def table_A_def reads_ok_def)
  have h: "\<not> valid_scalar 55296" by (simp add: valid_scalar_def)
  then have "(55296::nat) = 0 \<or> \<not> valid_scalar 55296" by simp
  from char_in_font_unvalidated [OF d this] d h show ?thesis
    by (simp add: has_key_def in_dict_def font_A_def table_A_def)
qed

text \<open>In \<open>font_nul\<close> a Unicode table has the key 0, and the answer for U+0000 is true.\<close>

theorem char_in_font_zero_counterexample:
  "char_in_font [0] font_nul = Inr True"
  by (simp add: char_in_font_def font_nul_def isUnicode_def)

text \<open>
  C5. For a font without character-mapping tables (no \<^verbatim>\<open>cmap\<close> table, or one
  with an empty list of subtables) and every argument, \<^verbatim>\<open>char_in_font\<close> returns
  false and raises nothing.
\<close>

theorem char_in_font_no_tables:
  "font_cmap font = None \<or> font_cmap font = Some (Inr []) \<Longrightarrow> char_in_font u font = Inr False"
  by (auto simp: char_in_font_def)

theorem char_in_font_no_tables_witness:
  "font_cmap font_no_tables = Some (Inr []) \<and> char_in_font [65] font_no_tables = Inr False"
proof -
  have h: "font_cmap font_no_tables = Some (Inr [])" by (simp add: font_no_tables_def)
  then have "font_cmap font_no_tables = None \<or> font_cmap font_no_tables = Some (Inr [])" by simp
  from char_in_font_no_tables [OF this, of "[65]"] h show ?thesis by simp
qed




text \<open>
  C10. For an argument that is not exactly one character and a font with at least one
  subtable that answers \<^verbatim>\<open>isUnicode()\<close>, \<^verbatim>\<open>char_in_font\<close> raises the
  \<^verbatim>\<open>TypeError\<close> of \<^verbatim>\<open>ord\<close> and returns no boolean.
\<close>

theorem char_in_font_not_single_raises:
  "length u \<noteq> 1 \<Longrightarrow> font_cmap font = Some (Inr ts) \<Longrightarrow> list_ex isUnicode ts \<Longrightarrow>
   char_in_font u font = Inl TypeError"
  by (simp add: char_in_font_def char_in_tables_not_single)

theorem char_in_font_not_single_raises_witness:
  "length (str ''ab'') \<noteq> 1 \<and> font_cmap font_A = Some (Inr [table_A]) \<and>
   list_ex isUnicode [table_A] \<and> char_in_font (str ''ab'') font_A = Inl TypeError"
proof -
  have 1: "length (str ''ab'') \<noteq> 1" by (simp add: str_def)
  have 2: "font_cmap font_A = Some (Inr [table_A])" by (simp add: font_A_def)
  have 3: "list_ex isUnicode [table_A]" by (simp add: table_A_def isUnicode_def)
  from char_in_font_not_single_raises [OF 1 2 3] 1 2 3 show ?thesis by simp
qed

section \<open>The cache of \<^verbatim>\<open>load_font\<close>\<close>

lemma maxsize_pos: "0 < maxsize" by (simp add: maxsize_def)

lemma lru_load_font:
  "lru (snd (load_font T q w)) =
     (case map_of (lru w) q of
        Some r \<Rightarrow> (q, r) # filter (\<lambda>kv. fst kv \<noteq> q) (lru w)
      | None \<Rightarrow> (q, load_font_wrapped T q) #
                 (if length (lru w) < maxsize then lru w else butlast (lru w)))"
  by (simp add: load_font_def Let_def split: option.split)

lemma load_font_hit:
  "map_of (lru w) p = Some r \<Longrightarrow>
   fst (load_font T p w) = r \<and> opened (snd (load_font T p w)) = opened w \<and>
   map_of (lru (snd (load_font T p w))) p = Some r"
  by (simp add: load_font_def)

lemma keys_filter: "map fst (filter (\<lambda>kv. fst kv \<noteq> q) xs) = filter (\<lambda>k. k \<noteq> q) (map fst xs)"
  by (induction xs) auto

lemma map_of_filter_other:
  "p \<noteq> q \<Longrightarrow> map_of (filter (\<lambda>kv. fst kv \<noteq> q) xs) p = map_of xs p"
  by (induction xs) auto

lemma takeWhile_filter_subset:
  "q \<noteq> p \<Longrightarrow>
   set (takeWhile (\<lambda>k. k \<noteq> p) (filter (\<lambda>k. k \<noteq> q) xs)) \<subseteq> set (takeWhile (\<lambda>k. k \<noteq> p) xs)"
  by (induction xs) auto

lemma map_of_None_keys: "map_of xs q = None \<longleftrightarrow> q \<notin> set (map fst xs)"
  by (simp add: map_of_eq_None_iff)

lemma lru_inv_load_font: "lru_inv w \<Longrightarrow> lru_inv (snd (load_font T q w))"
proof (cases "map_of (lru w) q")
  case None
  assume inv: "lru_inv w"
  from None have notin: "q \<notin> set (map fst (lru w))" by (simp add: map_of_None_keys)
  show ?thesis
  proof (cases "length (lru w) < maxsize")
    case True
    with inv None notin show ?thesis by (simp add: lru_inv_def lru_load_font)
  next
    case False
    have "distinct (map fst (butlast (lru w)))"
      using inv by (simp add: lru_inv_def map_butlast distinct_butlast)
    moreover have "q \<notin> set (map fst (butlast (lru w)))"
      using notin by (auto dest: in_set_butlastD)
    moreover have "Suc (length (butlast (lru w))) \<le> maxsize"
      using inv False maxsize_pos by (simp add: lru_inv_def)
    ultimately show ?thesis using None False by (simp add: lru_inv_def lru_load_font)
  qed
next
  case (Some r)
  assume inv: "lru_inv w"
  from Some have "(q, r) \<in> set (lru w)" by (rule map_of_SomeD)
  then have "length (filter (\<lambda>kv. fst kv \<noteq> q) (lru w)) < length (lru w)"
    by (intro length_filter_less[where x="(q, r)"]) auto
  with inv Some show ?thesis
    by (simp add: lru_inv_def lru_load_font keys_filter)
qed


lemma step_same:
  "map_of (lru (snd (load_font T p w))) p = Some (fst (load_font T p w)) \<and>
   ahead p (snd (load_font T p w)) = {}"
  by (simp add: load_font_def ahead_def Let_def split: option.split)

lemma step_other:
  assumes inv: "lru_inv w" and p: "map_of (lru w) p = Some v" and qp: "q \<noteq> p"
    and sub: "ahead p w \<subseteq> A" and fin: "finite A" and card: "card (insert q A) < maxsize"
  shows "map_of (lru (snd (load_font T q w))) p = Some v \<and>
         ahead p (snd (load_font T q w)) \<subseteq> insert q A"
proof (cases "map_of (lru w) q")
  case (Some r)
  have "set (takeWhile (\<lambda>k. k \<noteq> p) (filter (\<lambda>k. k \<noteq> q) (map fst (lru w)))) \<subseteq> A"
    using takeWhile_filter_subset[OF qp] sub unfolding ahead_def by blast
  with Some p qp show ?thesis
    by (auto simp: lru_load_font map_of_filter_other ahead_def keys_filter)
next
  case None
  then have notin: "q \<notin> set (map fst (lru w))" by (simp add: map_of_None_keys)
  show ?thesis
  proof (cases "length (lru w) < maxsize")
    case True
    with None p qp sub show ?thesis
      by (auto simp: lru_load_font ahead_def)
  next
    case False
    with inv have len: "length (lru w) = maxsize" by (simp add: lru_inv_def)
    with maxsize_pos have "lru w \<noteq> []" by auto
    then obtain ys k u where split: "lru w = ys @ [(k, u)]"
      by (cases "lru w" rule: rev_cases) auto
    have dist: "distinct (map fst ys)" "k \<notin> set (map fst ys)"
      using inv split by (auto simp: lru_inv_def)
    have kp: "k \<noteq> p"
    proof
      assume "k = p"
      with dist have "takeWhile (\<lambda>k. k \<noteq> p) (map fst ys @ [k]) = map fst ys"
        by (subst takeWhile_append2) auto
      then have "takeWhile (\<lambda>k. k \<noteq> p) (map fst (lru w)) = map fst ys"
        using split by simp
      then have ah: "ahead p w = set (map fst ys)" by (simp add: ahead_def)
      have "card (set (map fst ys)) = length ys"
        using dist(1) distinct_card by fastforce
      moreover have "length ys = maxsize - 1" using len split by simp
      moreover have "q \<notin> set (map fst ys)" using notin split by simp
      ultimately have "card (insert q (set (map fst ys))) = maxsize"
        using maxsize_pos by simp
      moreover have "card (insert q (set (map fst ys))) \<le> card (insert q A)"
        using sub ah fin by (intro card_mono) auto
      ultimately show False using card by simp
    qed
    from p kp split have pys: "map_of ys p = Some v"
      by (auto simp: map_add_def split: option.splits)
    then have "p \<in> set (map fst ys)"
      by (metis map_of_None_keys option.distinct(1))
    then have "takeWhile (\<lambda>k. k \<noteq> p) (map fst ys @ [k]) = takeWhile (\<lambda>k. k \<noteq> p) (map fst ys)"
      by (intro takeWhile_append1[where x=p]) auto
    with sub split have "set (takeWhile (\<lambda>k. k \<noteq> p) (map fst ys)) \<subseteq> A"
      by (simp add: ahead_def)
    moreover have "lru (snd (load_font T q w)) = (q, load_font_wrapped T q) # butlast (lru w)"
      by (simp add: lru_load_font None False)
    then have "lru (snd (load_font T q w)) = (q, load_font_wrapped T q) # ys"
      by (simp add: split)
    ultimately show ?thesis using pys qp
      by (auto simp: ahead_def)
  qed
qed


lemma kept_while_few:
  "lru_inv w \<Longrightarrow> map_of (lru w) p = Some v \<Longrightarrow> ahead p w \<subseteq> A \<Longrightarrow> finite A \<Longrightarrow>
   card (A \<union> (set qs - {p})) < maxsize \<Longrightarrow>
   map_of (lru (load_fonts T qs w)) p = Some v"
proof (induction qs arbitrary: w A)
  case Nil
  then show ?case by simp
next
  case (Cons q qs)
  let ?w = "snd (load_font T q w)"
  have inv': "lru_inv ?w" using Cons.prems(1) by (rule lru_inv_load_font)
  show ?case
  proof (cases "q = p")
    case True
    have m: "map_of (lru ?w) p = Some v"
      using load_font_hit[OF Cons.prems(2), of T] True by simp
    have a: "ahead p ?w \<subseteq> A" using step_same[of T p w] True by simp
    have c: "card (A \<union> (set qs - {p})) < maxsize"
      using Cons.prems(5) True by (simp add: insert_Diff_if)
    from Cons.IH[OF inv' m a Cons.prems(4) c] show ?thesis by simp
  next
    case False
    have "card (insert q A) \<le> card (A \<union> (set (q # qs) - {p}))"
      using False Cons.prems(4) by (intro card_mono) auto
    with Cons.prems(5) have c1: "card (insert q A) < maxsize" by simp
    from step_other[OF Cons.prems(1,2) False Cons.prems(3,4) c1, of T]
    have m: "map_of (lru ?w) p = Some v" and a: "ahead p ?w \<subseteq> insert q A" by simp_all
    have "insert q A \<union> (set qs - {p}) = A \<union> (set (q # qs) - {p})"
      using False by auto
    with Cons.prems(5) have c: "card (insert q A \<union> (set qs - {p})) < maxsize" by simp
    have f: "finite (insert q A)" using Cons.prems(4) by simp
    from Cons.IH[OF inv' m a f c] show ?thesis by simp
  qed
qed

lemma lru_inv_initial: "lru_inv initial"
  by (simp add: lru_inv_def initial_def)

lemma lru_inv_load_fonts: "lru_inv w \<Longrightarrow> lru_inv (load_fonts T qs w)"
  by (induction qs arbitrary: w) (simp_all add: lru_inv_load_font)


text \<open>
  C2, as the code has it. When \<^verbatim>\<open>load_font\<close> has returned the failure for a path,
  every later call with the same path returns the cached failure without giving the file
  to \<^verbatim>\<open>TTFont\<close> again, as long as fewer than 512 other distinct paths have been
  loaded in between: the cache holds 512 entries and gives up the least recently used one.
\<close>

theorem failure_cached_while_recent:
  assumes "lru_inv w" and "fst (load_font T p w) = None" and "card (set qs - {p}) < maxsize"
  shows "fst (load_font T p (load_fonts T qs (snd (load_font T p w)))) = None \<and>
         opened (snd (load_font T p (load_fonts T qs (snd (load_font T p w))))) =
           opened (load_fonts T qs (snd (load_font T p w)))"
proof -
  let ?w1 = "snd (load_font T p w)"
  have inv: "lru_inv ?w1" using assms(1) by (rule lru_inv_load_font)
  have m: "map_of (lru ?w1) p = Some None" and a: "ahead p ?w1 \<subseteq> {}"
    using step_same[of T p w] assms(2) by simp_all
  have "map_of (lru (load_fonts T qs ?w1)) p = Some None"
    using kept_while_few[OF inv m a] assms(3) by simp
  from load_font_hit[OF this, of T] show ?thesis by simp
qed

theorem failure_cached_while_recent_witness:
  "lru_inv initial \<and> fst (load_font corrupt bad_path initial) = None \<and>
   card (set few_paths - {bad_path}) < maxsize \<and>
   fst (load_font corrupt bad_path
         (load_fonts corrupt few_paths (snd (load_font corrupt bad_path initial)))) = None"
proof -
  have 1: "lru_inv initial" by (rule lru_inv_initial)
  have 2: "fst (load_font corrupt bad_path initial) = None"
    by (simp add: load_font_def initial_def load_font_wrapped_def corrupt_def)
  have "card (set few_paths - {bad_path}) \<le> card (set few_paths)"
    by (intro card_mono) auto
  also have "\<dots> \<le> length few_paths" by (rule card_length)
  finally have 3: "card (set few_paths - {bad_path}) < maxsize"
    by (simp add: few_paths_def maxsize_def)
  have 4: "fst (load_font corrupt bad_path
         (load_fonts corrupt few_paths (snd (load_font corrupt bad_path initial)))) = None"
    using failure_cached_while_recent [OF 1 2 3] by (rule conjunct1)
  show ?thesis by (rule conjI [OF 1 conjI [OF 2 conjI [OF 3 4]]])
qed

lemma keys_load_font:
  "map fst (lru (snd (load_font T q w))) =
     q # (if q \<in> set (map fst (lru w)) then filter (\<lambda>k. k \<noteq> q) (map fst (lru w))
          else if length (lru w) < maxsize then map fst (lru w)
          else butlast (map fst (lru w)))"
proof (cases "map_of (lru w) q")
  case None
  then have "q \<notin> set (map fst (lru w))" by (simp add: map_of_None_keys)
  with None show ?thesis by (simp add: lru_load_font map_butlast)
next
  case (Some r)
  then have "q \<in> set (map fst (lru w))"
    by (metis map_of_None_keys option.distinct(1))
  with Some show ?thesis by (simp add: lru_load_font keys_filter)
qed

lemma load_fonts_snoc: "load_fonts T (qs @ [q]) w = snd (load_font T q (load_fonts T qs w))"
  by (induction qs arbitrary: w) simp_all

lemma recent_first:
  "distinct qs \<Longrightarrow> length qs \<le> maxsize \<Longrightarrow> lru_inv w \<Longrightarrow>
   \<exists>ks. map fst (lru (load_fonts T qs w)) = rev qs @ ks"
proof (induction qs rule: rev_induct)
  case Nil
  then show ?case by simp
next
  case (snoc q qs)
  let ?w = "load_fonts T qs w"
  from snoc obtain ks where ks: "map fst (lru ?w) = rev qs @ ks" by auto
  have q: "q \<notin> set qs" using snoc.prems(1) by simp
  have len: "length qs < maxsize" using snoc.prems(2) by simp
  show ?case
  proof (cases "q \<in> set (map fst (lru ?w))")
    case True
    then have "map fst (lru (snd (load_font T q ?w))) = q # rev qs @ filter (\<lambda>k. k \<noteq> q) ks"
      using q by (auto simp: keys_load_font ks filter_id_conv)
    then show ?thesis by (simp add: load_fonts_snoc)
  next
    case False
    show ?thesis
    proof (cases "length (lru ?w) < maxsize")
      case True
      with False have "map fst (lru (snd (load_font T q ?w))) = q # rev qs @ ks"
        by (simp add: keys_load_font ks)
      then show ?thesis by (simp add: load_fonts_snoc)
    next
      case full: False
      have "length (map fst (lru ?w)) = length qs + length ks" by (simp add: ks)
      with full len have "ks \<noteq> []" by auto
      with False full have "map fst (lru (snd (load_font T q ?w))) = q # rev qs @ butlast ks"
        by (simp add: keys_load_font ks butlast_append)
      then show ?thesis by (simp add: load_fonts_snoc)
    qed
  qed
qed

lemma evicted_after_maxsize:
  assumes "distinct qs" and "length qs = maxsize" and "lru_inv w" and "p \<notin> set qs"
  shows "map_of (lru (load_fonts T qs w)) p = None"
proof -
  from recent_first[of qs w T] assms obtain ks
    where ks: "map fst (lru (load_fonts T qs w)) = rev qs @ ks" by auto
  have "length (map fst (lru (load_fonts T qs w))) \<le> maxsize"
    using lru_inv_load_fonts[OF assms(3), of T qs] by (simp add: lru_inv_def)
  with ks assms(2) have "ks = []" by simp
  with ks assms(4) show ?thesis by (simp add: map_of_None_keys)
qed


text \<open>
  After 512 other paths the entry is gone: \<open>bad_path\<close> fails to parse, the 512 paths of
  \<open>other_paths\<close> are loaded, and the next call for \<open>bad_path\<close> gives the file to
  \<^verbatim>\<open>TTFont\<close> again.
\<close>

theorem failure_evicted_counterexample:
  "fst (load_font corrupt bad_path initial) = None \<and> length other_paths = 512 \<and>
   opened (snd (load_font corrupt bad_path flooded)) = opened flooded @ [bad_path]"
proof -
  have d: "distinct other_paths"
    by (simp add: other_paths_def distinct_map inj_on_def)
  have l: "length other_paths = maxsize"
    by (simp add: other_paths_def)
  have n: "bad_path \<notin> set other_paths"
    by (auto simp: other_paths_def bad_path_def str_def)
  have i: "lru_inv (snd (load_font corrupt bad_path initial))"
    by (rule lru_inv_load_font) (rule lru_inv_initial)
  have "map_of (lru flooded) bad_path = None"
    unfolding flooded_def by (rule evicted_after_maxsize[OF d l i n])
  then have "opened (snd (load_font corrupt bad_path flooded)) = opened flooded @ [bad_path]"
    by (simp add: load_font_def Let_def)
  moreover have "fst (load_font corrupt bad_path initial) = None"
    by (simp add: load_font_def initial_def load_font_wrapped_def corrupt_def)
  ultimately show ?thesis using l by (simp add: maxsize_def)
qed

text \<open>
  C8. When the cache holds an entry for the path, \<^verbatim>\<open>load_font\<close> returns the cached
  object and does not call \<^verbatim>\<open>TTFont\<close>; the entry stays, so the call after it does
  the same, and coverage and name of the results are those of the cached object.
\<close>

theorem warm_cache_same_result:
  assumes "map_of (lru w) p = Some r"
  shows "fst (load_font T p w) = r \<and> opened (snd (load_font T p w)) = opened w \<and>
         map_of (lru (snd (load_font T p w))) p = Some r \<and>
         fst (load_font T p (snd (load_font T p w))) = r \<and>
         opened (snd (load_font T p (snd (load_font T p w)))) = opened w \<and>
         map_option (char_in_font u) (fst (load_font T p w)) = map_option (char_in_font u) r \<and>
         map_option get_font_name (fst (load_font T p w)) = map_option get_font_name r"
proof -
  note first = load_font_hit [OF assms, of T]
  from first have "map_of (lru (snd (load_font T p w))) p = Some r" by simp
  from load_font_hit [OF this, of T] first show ?thesis by simp
qed

theorem warm_cache_same_result_witness:
  "map_of (lru warm) a_path = Some (Some font_A) \<and>
   fst (load_font good a_path warm) = Some font_A \<and>
   opened (snd (load_font good a_path warm)) = opened warm"
proof -
  have h: "map_of (lru warm) a_path = Some (Some font_A)"
    by (simp add: warm_def load_font_def initial_def load_font_wrapped_def good_def Let_def)
  from warm_cache_same_result [OF h, of good] h show ?thesis by simp
qed

lemma cache_ok_initial: "cache_ok T initial"
  by (simp add: cache_ok_def initial_def)

lemma cache_ok_load_font:
  assumes "cache_ok T w"
  shows "cache_ok T (snd (load_font T p w))"
proof (cases "map_of (lru w) p")
  case None
  have "\<forall>kv \<in> set (butlast (lru w)). snd kv = load_font_wrapped T (fst kv)"
    using assms by (auto simp: cache_ok_def list_all_iff dest: in_set_butlastD)
  with None assms show ?thesis
    by (simp add: cache_ok_def lru_load_font list_all_iff)
next
  case (Some r)
  then have "(p, r) \<in> set (lru w)" by (rule map_of_SomeD)
  with assms have "r = load_font_wrapped T p"
    by (auto simp: cache_ok_def list_all_iff)
  with Some assms show ?thesis
    by (simp add: cache_ok_def lru_load_font list_all_iff)
qed

text \<open>
  C6. \<^verbatim>\<open>load_font\<close> is total and raises nothing. Whatever error \<^verbatim>\<open>TTFont\<close>
  raises for a path (a truncated, empty or non-font file, an I/O error), the function under
  the decorator returns \<^verbatim>\<open>None\<close>, and so does \<^verbatim>\<open>load_font\<close> in every state of
  the cache that agrees with the files; the state after the call agrees with them again.
\<close>

theorem load_font_failure_is_None:
  assumes "cache_ok T w" and "T p = Inl e"
  shows "load_font_wrapped T p = None \<and> fst (load_font T p w) = None \<and>
         cache_ok T (snd (load_font T p w))"
proof -
  have wrapped: "load_font_wrapped T p = None"
    using assms(2) by (simp add: load_font_wrapped_def)
  have "fst (load_font T p w) = None"
  proof (cases "map_of (lru w) p")
    case None
    with wrapped show ?thesis by (simp add: load_font_def Let_def)
  next
    case (Some r)
    then have "(p, r) \<in> set (lru w)" by (rule map_of_SomeD)
    with assms(1) wrapped have "r = None"
      by (auto simp: cache_ok_def list_all_iff)
    with load_font_hit [OF Some, of T] show ?thesis by simp
  qed
  with wrapped cache_ok_load_font [OF assms(1), of p] show ?thesis by simp
qed

theorem load_font_failure_is_None_witness:
  "cache_ok corrupt initial \<and> corrupt bad_path = Inl TTLibError \<and>
   fst (load_font corrupt bad_path initial) = None"
proof -
  have 1: "cache_ok corrupt initial" by (rule cache_ok_initial)
  have 2: "corrupt bad_path = Inl TTLibError" by (simp add: corrupt_def)
  from load_font_failure_is_None [OF 1 2] 1 2 show ?thesis by simp
qed

section \<open>Names: \<^verbatim>\<open>get_font_name\<close>\<close>

lemma scan_names_find: "scan_names rs = map_option toUnicode (List.find name_matches rs)"
  by (induction rs) auto

lemma name_matches_eq:
  "name_matches = (\<lambda>r. (nameID r = 1 \<or> nameID r = 4) \<and> platformID r = 3 \<and> platEncID r = 1)"
  by (rule ext) (simp add: name_matches_def)

text \<open>
  C4. \<^verbatim>\<open>get_font_name\<close> returns the decoded text of the first name record whose name
  identifier is 1 or 4, whose platform identifier is 3 and whose encoding identifier is 1.
  Without a name table, without such a record, or when decoding that record raises an
  error, it returns the string \<^verbatim>\<open>Unknown font\<close>. It is a total function to strings:
  it raises nothing.
\<close>

theorem get_font_name_first_match:
  "get_font_name font =
     (case font_name font of
        None \<Rightarrow> str ''Unknown font''
      | Some rs \<Rightarrow>
          (case List.find (\<lambda>r. (nameID r = 1 \<or> nameID r = 4) \<and> platformID r = 3 \<and> platEncID r = 1) rs of
             None \<Rightarrow> str ''Unknown font''
           | Some r \<Rightarrow> (case toUnicode r of Inr text \<Rightarrow> text | Inl e \<Rightarrow> str ''Unknown font'')))"
  unfolding name_matches_eq [symmetric]
  by (simp add: get_font_name_def get_font_name_try_def scan_names_find Unknown_font_def
      split: option.split sum.split)

theorem get_font_name_first_match_witness:
  "get_font_name font_named = str ''DejaVu Sans'' \<and>
   get_font_name font_broken_name = str ''Unknown font'' \<and>
   get_font_name font_A = str ''Unknown font''"
  using get_font_name_first_match [of font_named] get_font_name_first_match [of font_broken_name]
    get_font_name_first_match [of font_A]
  by (simp add: font_named_def font_broken_name_def font_A_def record_mac_def record_family_def
      record_broken_def)

section \<open>The program: \<^verbatim>\<open>main\<close>\<close>

lemma encodable_Nil: "encodable enc []"
  by (simp add: encodable_def)

lemma encodable_Cons: "encodable enc (c # s) = ((c < 128 \<or> enc c) \<and> encodable enc s)"
  by (simp add: encodable_def)

lemma encodable_append: "encodable enc (s @ t) = (encodable enc s \<and> encodable enc t)"
  by (simp add: encodable_def)

lemma encodable_replicate: "encodable enc (replicate n c) = (n = 0 \<or> c < 128 \<or> enc c)"
  by (auto simp: encodable_def list_all_iff)

lemma usage_encodable: "encodable enc (usage_lines ! 0) \<and> encodable enc (usage_lines ! 1)"
  by (simp add: usage_lines_def encodable_def str_def)

text \<open>
  C9, as the code has it. Invoked without a character argument, the program prints the two
  usage lines and exits with status 1; it searches no directory and opens no file.
\<close>

theorem main_usage_error:
  "drop 1 argv = [] \<Longrightarrow>
   main enc rglob T names argv w = (Exited 1, w\<lparr>stdout := stdout w @ usage_lines\<rparr>) \<and>
   exit_status (fst (main enc rglob T names argv w)) \<noteq> 0 \<and>
   walked (snd (main enc rglob T names argv w)) = walked w \<and>
   opened (snd (main enc rglob T names argv w)) = opened w"
proof -
  assume "drop 1 argv = []"
  then have m: "main enc rglob T names argv w = (Exited 1, w\<lparr>stdout := stdout w @ usage_lines\<rparr>)"
    using usage_encodable [of enc] by (simp add: main_def print_def usage_lines_def)
  show ?thesis by (simp add: m)
qed

theorem main_usage_error_witness:
  "drop 1 argv_none = [] \<and>
   main utf8 no_fonts corrupt Map.empty argv_none initial = (Exited 1, initial\<lparr>stdout := usage_lines\<rparr>)"
proof -
  have 1: "drop 1 argv_none = []" by (simp add: argv_none_def)
  have 2: "stdout initial = []" by (simp add: initial_def)
  from main_usage_error [OF 1, of utf8 no_fonts corrupt Map.empty initial] 1 2
  show ?thesis by simp
qed

text \<open>
  It is not the only run that fails. With an argument of two characters the fonts are
  discovered, \<^verbatim>\<open>unicodedata.name\<close> raises \<^verbatim>\<open>TypeError\<close> in
  \<^verbatim>\<open>get_char_description\<close>, nothing catches it, and the run ends with a traceback and
  status 1.
\<close>

theorem main_two_characters_counterexample:
  "drop 1 argv_ab \<noteq> [] \<and>
   fst (main utf8 no_fonts corrupt Map.empty argv_ab initial) = Uncaught TypeError \<and>
   exit_status (fst (main utf8 no_fonts corrupt Map.empty argv_ab initial)) = 1"
  by (simp add: argv_ab_def main_def print_def encodable_def discover_fonts_def no_fonts_def
      find_fonts_for_char_def get_char_description_def unicodedata_name_def is_ValueError_def
      str_def to_dec.simps)

text \<open>
  Two more runs with a single character as argument that end with an uncaught error: a font
  file that loads and whose \<^verbatim>\<open>cmap\<close> table fails to decode, and an argument that the
  output cannot encode.
\<close>

lemma main_cut_cmap_uncaught:
  "fst (main utf8 one_font cut Map.empty argv_A initial) = Uncaught StructError"
  by (simp add: argv_A_def main_def print_def encodable_Nil encodable_Cons encodable_append
      encodable_replicate discover_fonts_def one_font_def
      find_fonts_for_char_def get_char_description_def unicodedata_name_def is_ValueError_def
      str_def to_dec.simps format_04X_def to_hex.simps hex_digit_def utf8_def valid_scalar_def
      load_font_def load_font_wrapped_def cut_def font_cut_cmap_def char_in_font_def
      initial_def a_path_def maxsize_def Let_def)

lemma main_lone_surrogate_uncaught:
  "fst (main utf8 no_fonts corrupt Map.empty argv_surrogate initial) = Uncaught UnicodeEncodeError"
  by (simp add: argv_surrogate_def main_def print_def encodable_def discover_fonts_def
      no_fonts_def find_fonts_for_char_def get_char_description_def unicodedata_name_def
      is_ValueError_def str_def to_dec.simps utf8_def valid_scalar_def)

end
